theory Spec2Isabelle
  imports Main
begin

section \<open>The node model\<close>

text \<open>
  The tensor-expression IR allocates every node with \<open>new\<close> in a kernel arena and hands
  raw pointers around. The model keeps expressions by value (they are immutable and are
  only ever compared structurally), and gives an address to the two kinds of node whose
  identity is observable: a \<open>Var\<close> (a loop binds its index variable by identity) and a
  \<open>Stmt\<close> (every lowering builds new statement nodes). The arena is the next free
  address; each \<open>new\<close> of such a node takes it and advances the arena by one.
\<close>

type_synonym addr = nat
type_synonym arena = addr

record Var =
  var_addr :: addr
  var_name :: string

datatype Expr =
    IntImm int
  | VarE Var
  | Add Expr Expr
  | Mul Expr Expr
  | Load Buf "Expr list"
and Buf =
    Buf (buf_name: string) (buf_dims: "Expr list") (buf_initializer: "Expr option")

text \<open>
  \<open>Store(buf, indices, value, mask)\<close>, \<open>For(var, start, stop, body)\<close> and \<open>Block(stmts)\<close>,
  each with the address of the node. The stored value is a pointer the source never tests
  before building the \<open>Store\<close>, so it is an \<open>Expr option\<close> with \<open>None\<close> the null pointer.
\<close>

datatype Stmt =
    Store addr Buf "Expr list" "Expr option" Expr
  | For addr Var Expr Expr Stmt
  | Block addr "Stmt list"

datatype error =
    malformed_input string
  | out_of_range

record DimArg =
  dimarg_dim :: Expr
  dimarg_name :: string

record Tensor =
  buf :: Buf
  args :: "Var list"
  reduce_dims :: "Expr list"
  reduce_args :: "Var list"
  body :: "Expr option"

section \<open>Accessors of Tensor\<close>

text \<open>
  Modelled from the spec: class \<open>Tensor\<close> and class \<open>Buf\<close> are declared in tensor.h and
  expr.h, which are not part of the sources at hand. The spec gives the fields of a tensor
  (name and shape live in the backing buffer, which also carries the optional initializer),
  \<open>ndim() = dims.length\<close> and \<open>reduce_ndim() = reduceDims.length\<close>. The indexed accessors
  return the element at the index; an index past the end of the underlying vector has no
  defined result in the source and is the error \<open>out_of_range\<close> here.
\<close>

definition buf_ndim :: "Buf \<Rightarrow> nat" where
  "buf_ndim b = length (buf_dims b)"

definition dims :: "Tensor \<Rightarrow> Expr list" where
  "dims t = buf_dims (buf t)"

definition ndim :: "Tensor \<Rightarrow> nat" where
  "ndim t = buf_ndim (buf t)"

definition reduce_ndim :: "Tensor \<Rightarrow> nat" where
  "reduce_ndim t = length (reduce_dims t)"

definition at_index :: "'a list \<Rightarrow> nat \<Rightarrow> error + 'a" where
  "at_index xs i = (if i < length xs then Inr (xs ! i) else Inl out_of_range)"

definition dim :: "Tensor \<Rightarrow> nat \<Rightarrow> error + Expr" where
  "dim t index = at_index (dims t) index"

definition arg :: "Tensor \<Rightarrow> nat \<Rightarrow> error + Var" where
  "arg t index = at_index (args t) index"

definition reduce_dim :: "Tensor \<Rightarrow> nat \<Rightarrow> error + Expr" where
  "reduce_dim t index = at_index (reduce_dims t) index"

definition reduce_arg :: "Tensor \<Rightarrow> nat \<Rightarrow> error + Var" where
  "reduce_arg t index = at_index (reduce_args t) index"

text \<open>The invariants the spec states for a tensor: one index variable per axis.\<close>

definition tensor_inv :: "Tensor \<Rightarrow> bool" where
  "tensor_inv t \<longleftrightarrow>
     length (args t) = ndim t \<and> length (reduce_args t) = reduce_ndim t"

section \<open>Tensor::ElementStmt\<close>

text \<open>
  The loop \<open>for (i = 0; i < buf_->ndim(); i++) indices.push_back(args_[i])\<close>, started at
  \<open>i = 0\<close> with no indices.
\<close>

function element_indices :: "Tensor \<Rightarrow> nat \<Rightarrow> Expr list \<Rightarrow> error + Expr list" where
  "element_indices t i indices =
     (if i < buf_ndim (buf t) then
        (case at_index (args t) i of
           Inl e \<Rightarrow> Inl e
         | Inr v \<Rightarrow> element_indices t (Suc i) (indices @ [VarE v]))
      else Inr indices)"
  by pat_completeness auto
termination
  by (relation "measure (\<lambda>(t, i, indices). buf_ndim (buf t) - i)") auto

declare element_indices.simps [simp del]

definition ElementStmt :: "Tensor \<Rightarrow> arena \<Rightarrow> (error + Stmt) \<times> arena" where
  "ElementStmt t ar =
     (case element_indices t 0 [] of
        Inl e \<Rightarrow> (Inl e, ar)
      | Inr indices \<Rightarrow>
          (let mask = IntImm 1;
               update_stmt = Store ar (buf t) indices (body t) mask
           in (Inr update_stmt, Suc ar)))"

section \<open>Tensor::lowerToStmt\<close>

text \<open>
  The two wrapping loops. Each runs \<open>i\<close> upwards and wraps the statement built so far in
  a new \<open>For\<close> over the axis \<open>n - i - 1\<close>: the last axis first.
\<close>

function reduce_loops :: "Tensor \<Rightarrow> nat \<Rightarrow> Stmt \<Rightarrow> arena \<Rightarrow> (error + Stmt) \<times> arena" where
  "reduce_loops t i s ar =
     (if i < reduce_ndim t then
        (let dim_index = reduce_ndim t - i - 1 in
         case reduce_arg t dim_index of
           Inl e \<Rightarrow> (Inl e, ar)
         | Inr v \<Rightarrow>
             (case reduce_dim t dim_index of
                Inl e \<Rightarrow> (Inl e, ar)
              | Inr d \<Rightarrow> reduce_loops t (Suc i) (For ar v (IntImm 0) d s) (Suc ar)))
      else (Inr s, ar))"
  by pat_completeness auto
termination
  by (relation "measure (\<lambda>(t, i, s, ar). reduce_ndim t - i)") auto

declare reduce_loops.simps [simp del]

function dim_loops :: "Tensor \<Rightarrow> nat \<Rightarrow> Stmt \<Rightarrow> arena \<Rightarrow> (error + Stmt) \<times> arena" where
  "dim_loops t i s ar =
     (if i < ndim t then
        (let dim_index = ndim t - i - 1 in
         case arg t dim_index of
           Inl e \<Rightarrow> (Inl e, ar)
         | Inr v \<Rightarrow>
             (case dim t dim_index of
                Inl e \<Rightarrow> (Inl e, ar)
              | Inr d \<Rightarrow> dim_loops t (Suc i) (For ar v (IntImm 0) d s) (Suc ar)))
      else (Inr s, ar))"
  by pat_completeness auto
termination
  by (relation "measure (\<lambda>(t, i, s, ar). ndim t - i)") auto

declare dim_loops.simps [simp del]

text \<open>
  The block \<open>if (reduce_ndim() > 0) { ... }\<close>: the reduction loops, then the initializer
  store and the block, when the buffer has an initializer.
\<close>

definition reduce_part :: "Tensor \<Rightarrow> Stmt \<Rightarrow> arena \<Rightarrow> (error + Stmt) \<times> arena" where
  "reduce_part t s ar =
     (let init_expr = buf_initializer (buf t);
          indices = map VarE (args t)
      in if reduce_ndim t > 0 then
           (case reduce_loops t 0 s ar of
              (Inl e, ar') \<Rightarrow> (Inl e, ar')
            | (Inr s', ar') \<Rightarrow>
                (case init_expr of
                   None \<Rightarrow> (Inr s', ar')
                 | Some ie \<Rightarrow>
                     (let init = Store ar' (buf t) indices (Some ie) (IntImm 1)
                      in (Inr (Block (Suc ar') [init, s']), Suc (Suc ar')))))
         else (Inr s, ar))"

definition lowerToStmt :: "Tensor \<Rightarrow> arena \<Rightarrow> (error + Stmt) \<times> arena" where
  "lowerToStmt t ar =
     (case ElementStmt t ar of
        (Inl e, ar') \<Rightarrow> (Inl e, ar')
      | (Inr s, ar') \<Rightarrow>
          if body t = None then (Inr s, ar')
          else if ndim t = 0 \<and> reduce_ndim t = 0 then (Inr s, ar')
          else
            (case reduce_part t s ar' of
               (Inl e, ar'') \<Rightarrow> (Inl e, ar'')
             | (Inr s', ar'') \<Rightarrow> dim_loops t 0 s' ar''))"

section \<open>Dimension unpacking and the Compute builders\<close>

text \<open>
  Modelled from the spec: \<open>unpack_dim_args\<close> is an inline helper of tensor.h, not part of
  the sources at hand. The spec: for an ordered sequence of \<open>DimArg\<close> it yields the extent
  expressions and, index for index, one freshly allocated index variable each.
\<close>

fun unpack_dim_args :: "DimArg list \<Rightarrow> arena \<Rightarrow> (Expr list \<times> Var list) \<times> arena" where
  "unpack_dim_args [] ar = (([], []), ar)"
| "unpack_dim_args (dim_arg # rest) ar =
     (case unpack_dim_args rest (Suc ar) of
        ((ds, vs), ar') \<Rightarrow>
          ((dimarg_dim dim_arg # ds,
            \<lparr>var_addr = ar, var_name = dimarg_name dim_arg\<rparr> # vs), ar'))"

text \<open>
  Modelled from the spec: the constructor \<open>Tensor(name, dims, args, body)\<close> of tensor.h.
  The spec: it builds \<open>Tensor{name, dims, args, body}\<close> with empty reduction axes; the
  backing buffer carries the name and the shape and declares no initializer.
\<close>

definition new_Tensor :: "string \<Rightarrow> Expr list \<Rightarrow> Var list \<Rightarrow> Expr \<Rightarrow> Tensor" where
  "new_Tensor func_name ds as b =
     \<lparr>buf = Buf func_name ds None, args = as, reduce_dims = [], reduce_args = [],
      body = Some b\<rparr>"

text \<open>
  A body callable is a \<open>std::function\<close>: besides returning an expression it may act on
  whatever its closure captured. The model passes the caller's state \<open>'w\<close> through the
  callable, so that a builder that returns without calling it leaves that state as it was.
  A \<open>throw\<close> keeps the state reached so far; the builders return it beside the error.
  The reads \<open>args[0]\<close> to \<open>args[3]\<close> of the overloads come after the length check and
  after \<open>unpack_dim_args\<close>, which returns one variable per dimension, so they are in
  range.
\<close>

definition Compute ::
  "string \<Rightarrow> DimArg list \<Rightarrow> (Var list \<Rightarrow> 'w \<Rightarrow> Expr \<times> 'w) \<Rightarrow> arena \<Rightarrow> 'w
     \<Rightarrow> (error + Tensor) \<times> arena \<times> 'w" where
  "Compute func_name dim_args body_func ar w =
     (case unpack_dim_args dim_args ar of
        ((ds, as), ar') \<Rightarrow>
          (case body_func as w of
             (b, w') \<Rightarrow> (Inr (new_Tensor func_name ds as b), ar', w')))"

definition Compute1 ::
  "string \<Rightarrow> DimArg list \<Rightarrow> (Var \<Rightarrow> 'w \<Rightarrow> Expr \<times> 'w) \<Rightarrow> arena \<Rightarrow> 'w
     \<Rightarrow> (error + Tensor) \<times> arena \<times> 'w" where
  "Compute1 func_name dim_args body_func ar w =
     (if length dim_args \<noteq> 1 then
        (Inl (malformed_input ''mismatch between body and arg size (1)''), ar, w)
      else
        (case unpack_dim_args dim_args ar of
           ((ds, as), ar') \<Rightarrow>
             (case body_func (as ! 0) w of
                (b, w') \<Rightarrow> (Inr (new_Tensor func_name ds as b), ar', w'))))"

definition Compute2 ::
  "string \<Rightarrow> DimArg list \<Rightarrow> (Var \<Rightarrow> Var \<Rightarrow> 'w \<Rightarrow> Expr \<times> 'w) \<Rightarrow> arena \<Rightarrow> 'w
     \<Rightarrow> (error + Tensor) \<times> arena \<times> 'w" where
  "Compute2 func_name dim_args body_func ar w =
     (if length dim_args \<noteq> 2 then
        (Inl (malformed_input ''mismatch between body and arg size (2)''), ar, w)
      else
        (case unpack_dim_args dim_args ar of
           ((ds, as), ar') \<Rightarrow>
             (case body_func (as ! 0) (as ! 1) w of
                (b, w') \<Rightarrow> (Inr (new_Tensor func_name ds as b), ar', w'))))"

definition Compute3 ::
  "string \<Rightarrow> DimArg list \<Rightarrow> (Var \<Rightarrow> Var \<Rightarrow> Var \<Rightarrow> 'w \<Rightarrow> Expr \<times> 'w) \<Rightarrow> arena \<Rightarrow> 'w
     \<Rightarrow> (error + Tensor) \<times> arena \<times> 'w" where
  "Compute3 func_name dim_args body_func ar w =
     (if length dim_args \<noteq> 3 then
        (Inl (malformed_input ''mismatch between body and arg size (3)''), ar, w)
      else
        (case unpack_dim_args dim_args ar of
           ((ds, as), ar') \<Rightarrow>
             (case body_func (as ! 0) (as ! 1) (as ! 2) w of
                (b, w') \<Rightarrow> (Inr (new_Tensor func_name ds as b), ar', w'))))"

definition Compute4 ::
  "string \<Rightarrow> DimArg list \<Rightarrow> (Var \<Rightarrow> Var \<Rightarrow> Var \<Rightarrow> Var \<Rightarrow> 'w \<Rightarrow> Expr \<times> 'w) \<Rightarrow> arena \<Rightarrow> 'w
     \<Rightarrow> (error + Tensor) \<times> arena \<times> 'w" where
  "Compute4 func_name dim_args body_func ar w =
     (if length dim_args \<noteq> 4 then
        (Inl (malformed_input ''mismatch between body and arg size (4)''), ar, w)
      else
        (case unpack_dim_args dim_args ar of
           ((ds, args_nodes), ar') \<Rightarrow>
             (case body_func (args_nodes ! 0) (args_nodes ! 1) (args_nodes ! 2)
                     (args_nodes ! 3) w of
                (b, w') \<Rightarrow> (Inr (new_Tensor func_name ds args_nodes b), ar', w'))))"

text \<open>
  C++ picks the overload by the type of the callable. \<open>Compute_arity\<close> is that choice
  as a function: a statement about every arity from 1 to 4 is a statement about every
  value of \<open>body_func\<close>.
\<close>

datatype 'w body_func =
    Body1 "Var \<Rightarrow> 'w \<Rightarrow> Expr \<times> 'w"
  | Body2 "Var \<Rightarrow> Var \<Rightarrow> 'w \<Rightarrow> Expr \<times> 'w"
  | Body3 "Var \<Rightarrow> Var \<Rightarrow> Var \<Rightarrow> 'w \<Rightarrow> Expr \<times> 'w"
  | Body4 "Var \<Rightarrow> Var \<Rightarrow> Var \<Rightarrow> Var \<Rightarrow> 'w \<Rightarrow> Expr \<times> 'w"

fun arity :: "'w body_func \<Rightarrow> nat" where
  "arity (Body1 f) = 1"
| "arity (Body2 f) = 2"
| "arity (Body3 f) = 3"
| "arity (Body4 f) = 4"

fun Compute_arity ::
  "string \<Rightarrow> DimArg list \<Rightarrow> 'w body_func \<Rightarrow> arena \<Rightarrow> 'w \<Rightarrow> (error + Tensor) \<times> arena \<times> 'w" where
  "Compute_arity func_name dim_args (Body1 f) = Compute1 func_name dim_args f"
| "Compute_arity func_name dim_args (Body2 f) = Compute2 func_name dim_args f"
| "Compute_arity func_name dim_args (Body3 f) = Compute3 func_name dim_args f"
| "Compute_arity func_name dim_args (Body4 f) = Compute4 func_name dim_args f"

section \<open>The Reduce overloads\<close>

text \<open>
  Both overloads call the shared \<open>Reduce\<close> template of tensor.h with a lambda that reads
  the value source. The template, \<open>Placeholder::load\<close> and \<open>Tensor::call\<close> are not part of
  the sources at hand; the overloads take them as the parameters \<open>Reduce_shared\<close>,
  \<open>load\<close> and \<open>call\<close>.
\<close>

definition Reduce_Placeholder ::
  "(string \<Rightarrow> DimArg list \<Rightarrow> 'reducer \<Rightarrow> ('p \<Rightarrow> 'e) \<Rightarrow> DimArg list \<Rightarrow> 'r)
     \<Rightarrow> ('placeholder \<Rightarrow> 'p \<Rightarrow> 'e)
     \<Rightarrow> string \<Rightarrow> DimArg list \<Rightarrow> 'reducer \<Rightarrow> 'placeholder \<Rightarrow> DimArg list \<Rightarrow> 'r" where
  "Reduce_Placeholder Reduce_shared load func_name dim_args reducer buffer reduce_dim_args =
     Reduce_shared func_name dim_args reducer (\<lambda>p. load buffer p) reduce_dim_args"

definition Reduce_Tensor ::
  "(string \<Rightarrow> DimArg list \<Rightarrow> 'reducer \<Rightarrow> ('p \<Rightarrow> 'e) \<Rightarrow> DimArg list \<Rightarrow> 'r)
     \<Rightarrow> ('tensor \<Rightarrow> 'p \<Rightarrow> 'e)
     \<Rightarrow> string \<Rightarrow> DimArg list \<Rightarrow> 'reducer \<Rightarrow> 'tensor \<Rightarrow> DimArg list \<Rightarrow> 'r" where
  "Reduce_Tensor Reduce_shared call func_name dim_args reducer tensor reduce_dim_args =
     Reduce_shared func_name dim_args reducer (\<lambda>p. call tensor p) reduce_dim_args"

text \<open>
  Modelled from the spec: the shared \<open>Reduce\<close> and the \<open>Reducer\<close> it consumes. The spec:
  unpack both dimension groups; index the source with the output variables followed by
  the reduction variables; combine that value, by the reducer's rule, with the load of
  the output buffer at the output variables; that is the body, and the buffer's
  initializer is the reducer's.
\<close>

record Reducer =
  initializer :: Expr
  combine :: "Expr \<Rightarrow> Expr \<Rightarrow> Expr"

definition Reduce ::
  "string \<Rightarrow> DimArg list \<Rightarrow> Reducer \<Rightarrow> (Var list \<Rightarrow> Expr) \<Rightarrow> DimArg list \<Rightarrow> arena
     \<Rightarrow> (error + Tensor) \<times> arena" where
  "Reduce func_name dim_args reducer body_func reduce_dim_args ar =
     (case unpack_dim_args dim_args ar of
        ((ds, vars), ar') \<Rightarrow>
          (case unpack_dim_args reduce_dim_args ar' of
             ((reduce_ds, reduce_vars), ar'') \<Rightarrow>
               (let all_vars = vars @ reduce_vars;
                    b = Buf func_name ds (Some (initializer reducer));
                    e = combine reducer (Load b (map VarE vars)) (body_func all_vars)
                in (Inr \<lparr>buf = b, args = vars, reduce_dims = reduce_ds,
                         reduce_args = reduce_vars, body = Some e\<rparr>, ar''))))"

section \<open>Describing a lowered statement\<close>

text \<open>
  The loop nest over the axes \<open>vs\<close> with extents \<open>ds\<close> around \<open>s\<close>: the first axis is the
  outermost loop, every loop runs from 0 to its extent. The loops were built from the
  inside out, \<open>a\<close> being the address of the innermost one, so the loop of an axis with
  \<open>n\<close> axes after it sits at \<open>a + n\<close>.
\<close>

fun loop_nest :: "addr \<Rightarrow> Var list \<Rightarrow> Expr list \<Rightarrow> Stmt \<Rightarrow> Stmt" where
  "loop_nest a (v # vs) (d # ds) s = For (a + length vs) v (IntImm 0) d (loop_nest a vs ds s)"
| "loop_nest a vs ds s = s"

text \<open>
  Two statement trees are structurally equivalent when they agree once the addresses of
  their nodes are forgotten; \<open>nodes\<close> lists the addresses of a tree.
\<close>

fun strip :: "Stmt \<Rightarrow> Stmt" where
  "strip (Store a b indices v m) = Store 0 b indices v m"
| "strip (For a v start stop s) = For 0 v start stop (strip s)"
| "strip (Block a ss) = Block 0 (map strip ss)"

fun nodes :: "Stmt \<Rightarrow> addr list" where
  "nodes (Store a b indices v m) = [a]"
| "nodes (For a v start stop s) = a # nodes s"
| "nodes (Block a ss) = a # concat (map nodes ss)"

fun shape :: "error + Stmt \<Rightarrow> error + Stmt" where
  "shape (Inl e) = Inl e"
| "shape (Inr s) = Inr (strip s)"

fun relowered :: "error + Stmt \<Rightarrow> error + Stmt \<Rightarrow> bool" where
  "relowered (Inr s) (Inr s') \<longleftrightarrow> strip s = strip s' \<and> set (nodes s) \<inter> set (nodes s') = {}"
| "relowered (Inl e) (Inl e') \<longleftrightarrow> e = e'"
| "relowered (Inl e) (Inr s') \<longleftrightarrow> False"
| "relowered (Inr s) (Inl e') \<longleftrightarrow> False"

section \<open>Example tensors\<close>

definition index_var :: "addr \<Rightarrow> string \<Rightarrow> Var" where
  "index_var a n = \<lparr>var_addr = a, var_name = n\<rparr>"

definition example_input :: Buf where
  "example_input = Buf ''input'' [IntImm 4, IntImm 4] None"

definition example_add :: Tensor where
  "example_add =
     \<lparr>buf = Buf ''add'' [IntImm 4, IntImm 4] None,
      args = [index_var 0 ''i'', index_var 1 ''j''],
      reduce_dims = [], reduce_args = [],
      body = Some (Add (Load example_input [VarE (index_var 0 ''i''), VarE (index_var 1 ''j'')])
                       (IntImm 2))\<rparr>"

definition example_sum :: "Expr option \<Rightarrow> Tensor" where
  "example_sum init =
     \<lparr>buf = Buf ''sum'' [IntImm 4] init,
      args = [index_var 0 ''n''],
      reduce_dims = [IntImm 4], reduce_args = [index_var 1 ''k''],
      body = Some (Add (Load (Buf ''sum'' [IntImm 4] init) [VarE (index_var 0 ''n'')])
                       (Load example_input [VarE (index_var 0 ''n''), VarE (index_var 1 ''k'')]))\<rparr>"

definition example_expanded :: Tensor where
  "example_expanded =
     \<lparr>buf = example_input,
      args = [index_var 0 ''i'', index_var 1 ''j''],
      reduce_dims = [], reduce_args = [], body = None\<rparr>"

definition example_scalar :: Tensor where
  "example_scalar =
     \<lparr>buf = Buf ''one'' [] None, args = [], reduce_dims = [], reduce_args = [],
      body = Some (IntImm 1)\<rparr>"

text \<open>
  The dimension list \<open>[DimArg(4, "i"), DimArg(4, "j")]\<close> and a body callable that reads
  \<open>input\<close> at its index variables and adds 2. The callable counts its invocations in the
  caller's state.
\<close>

definition example_dim_args :: "DimArg list" where
  "example_dim_args =
     [\<lparr>dimarg_dim = IntImm 4, dimarg_name = ''i''\<rparr>,
      \<lparr>dimarg_dim = IntImm 4, dimarg_name = ''j''\<rparr>]"

definition example_body :: "Var list \<Rightarrow> nat \<Rightarrow> Expr \<times> nat" where
  "example_body vs calls = (Add (Load example_input (map VarE vs)) (IntImm 2), Suc calls)"

definition example_body1 :: "Var \<Rightarrow> nat \<Rightarrow> Expr \<times> nat" where
  "example_body1 i = example_body [i]"

definition example_body2 :: "Var \<Rightarrow> Var \<Rightarrow> nat \<Rightarrow> Expr \<times> nat" where
  "example_body2 i j = example_body [i, j]"

definition example_reducer :: Reducer where
  "example_reducer = \<lparr>initializer = IntImm 0, combine = Add\<rparr>"

definition example_load :: "Buf \<Rightarrow> Var list \<Rightarrow> Expr" where
  "example_load b p = Load b (map VarE p)"

definition example_call :: "Tensor \<Rightarrow> Var list \<Rightarrow> Expr" where
  "example_call t p = Load (buf t) (map VarE p)"

section \<open>The loops in closed form\<close>

lemma loop_nest_snoc:
  "length vs = length ds \<Longrightarrow>
   loop_nest a (vs @ [v]) (ds @ [d]) s = loop_nest (Suc a) vs ds (For a v (IntImm 0) d s)"
  by (induction vs ds rule: list_induct2) simp_all

lemma element_indices_inv:
  "buf_ndim (buf t) \<le> length (args t) \<Longrightarrow> i \<le> buf_ndim (buf t) \<Longrightarrow>
   element_indices t i acc = Inr (acc @ map VarE (drop i (take (buf_ndim (buf t)) (args t))))"
proof (induction t i acc rule: element_indices.induct)
  case (1 t i indices)
  show ?case
  proof (cases "i < buf_ndim (buf t)")
    case True
    with "1.prems" have il: "i < length (args t)" by simp
    have step: "element_indices t (Suc i) (indices @ [VarE (args t ! i)]) =
        Inr ((indices @ [VarE (args t ! i)]) @
             map VarE (drop (Suc i) (take (buf_ndim (buf t)) (args t))))"
      using "1.IH" [of "args t ! i"] True il "1.prems" by (simp add: at_index_def)
    have "drop i (take (buf_ndim (buf t)) (args t)) =
          args t ! i # drop (Suc i) (take (buf_ndim (buf t)) (args t))"
      using True il by (simp add: Cons_nth_drop_Suc [symmetric])
    with step True il show ?thesis
      by (subst element_indices.simps) (simp add: at_index_def)
  next
    case False
    with "1.prems" show ?thesis
      by (subst element_indices.simps) simp
  qed
qed

lemma reduce_loops_inv:
  "length (reduce_args t) = reduce_ndim t \<Longrightarrow> i \<le> reduce_ndim t \<Longrightarrow>
   reduce_loops t i s ar =
     (Inr (loop_nest ar (take (reduce_ndim t - i) (reduce_args t))
             (take (reduce_ndim t - i) (reduce_dims t)) s),
      ar + (reduce_ndim t - i))"
proof (induction t i s ar rule: reduce_loops.induct)
  case (1 t i s ar)
  show ?case
  proof (cases "i < reduce_ndim t")
    case True
    then obtain k where k: "reduce_ndim t - i = Suc k"
      by (metis Suc_diff_Suc)
    then have k': "reduce_ndim t - i - 1 = k" "reduce_ndim t - Suc i = k"
      by simp_all
    have kl: "k < length (reduce_args t)" "k < length (reduce_dims t)"
      using k "1.prems" by (simp_all add: reduce_ndim_def)
    have ra: "reduce_arg t k = Inr (reduce_args t ! k)"
      "reduce_dim t k = Inr (reduce_dims t ! k)"
      using kl by (simp_all add: reduce_arg_def reduce_dim_def at_index_def)
    have "Suc i \<le> reduce_ndim t" using True by simp
    from "1.IH" [OF True k'(1) [symmetric] ra "1.prems"(1) this]
    have IH: "reduce_loops t (Suc i)
        (For ar (reduce_args t ! k) (IntImm 0) (reduce_dims t ! k) s) (Suc ar) =
       (Inr (loop_nest (Suc ar) (take k (reduce_args t)) (take k (reduce_dims t))
           (For ar (reduce_args t ! k) (IntImm 0) (reduce_dims t ! k) s)), Suc ar + k)"
      by (simp only: k')
    have nest: "loop_nest ar (take (Suc k) (reduce_args t)) (take (Suc k) (reduce_dims t)) s =
          loop_nest (Suc ar) (take k (reduce_args t)) (take k (reduce_dims t))
            (For ar (reduce_args t ! k) (IntImm 0) (reduce_dims t ! k) s)"
      using kl by (simp only: take_Suc_conv_app_nth) (simp add: loop_nest_snoc)
    have "reduce_loops t i s ar = reduce_loops t (Suc i)
        (For ar (reduce_args t ! k) (IntImm 0) (reduce_dims t ! k) s) (Suc ar)"
      using True ra by (subst reduce_loops.simps) (simp add: Let_def k')
    also note IH
    finally show ?thesis
      by (simp only: k nest) simp
  next
    case False
    with "1.prems" show ?thesis
      by (subst reduce_loops.simps) simp
  qed
qed


lemma dim_loops_inv:
  "length (args t) = ndim t \<Longrightarrow> i \<le> ndim t \<Longrightarrow>
   dim_loops t i s ar =
     (Inr (loop_nest ar (take (ndim t - i) (args t)) (take (ndim t - i) (dims t)) s),
      ar + (ndim t - i))"
proof (induction t i s ar rule: dim_loops.induct)
  case (1 t i s ar)
  show ?case
  proof (cases "i < ndim t")
    case True
    then obtain k where k: "ndim t - i = Suc k"
      by (metis Suc_diff_Suc)
    then have k': "ndim t - i - 1 = k" "ndim t - Suc i = k"
      by simp_all
    have kl: "k < length (args t)" "k < length (dims t)"
      using k "1.prems" by (simp_all add: ndim_def dims_def buf_ndim_def)
    have ra: "arg t k = Inr (args t ! k)" "dim t k = Inr (dims t ! k)"
      using kl by (simp_all add: arg_def dim_def at_index_def)
    have "Suc i \<le> ndim t" using True by simp
    from "1.IH" [OF True k'(1) [symmetric] ra "1.prems"(1) this]
    have IH: "dim_loops t (Suc i) (For ar (args t ! k) (IntImm 0) (dims t ! k) s) (Suc ar) =
       (Inr (loop_nest (Suc ar) (take k (args t)) (take k (dims t))
           (For ar (args t ! k) (IntImm 0) (dims t ! k) s)), Suc ar + k)"
      by (simp only: k')
    have nest: "loop_nest ar (take (Suc k) (args t)) (take (Suc k) (dims t)) s =
          loop_nest (Suc ar) (take k (args t)) (take k (dims t))
            (For ar (args t ! k) (IntImm 0) (dims t ! k) s)"
      using kl by (simp only: take_Suc_conv_app_nth) (simp add: loop_nest_snoc)
    have "dim_loops t i s ar =
        dim_loops t (Suc i) (For ar (args t ! k) (IntImm 0) (dims t ! k) s) (Suc ar)"
      using True ra by (subst dim_loops.simps) (simp add: Let_def k')
    also note IH
    finally show ?thesis
      by (simp only: k nest) simp
  next
    case False
    with "1.prems" show ?thesis
      by (subst dim_loops.simps) simp
  qed
qed

lemma ElementStmt_inv:
  assumes "tensor_inv t"
  shows "ElementStmt t ar =
    (Inr (Store ar (buf t) (map VarE (args t)) (body t) (IntImm 1)), Suc ar)"
proof -
  have "buf_ndim (buf t) = length (args t)"
    using assms by (simp add: tensor_inv_def ndim_def)
  then have "element_indices t 0 [] = Inr (map VarE (args t))"
    using element_indices_inv [of t 0 "[]"] by simp
  then show ?thesis by (simp add: ElementStmt_def)
qed

lemma reduce_loops_all:
  assumes "tensor_inv t"
  shows "reduce_loops t 0 s ar =
    (Inr (loop_nest ar (reduce_args t) (reduce_dims t) s), ar + reduce_ndim t)"
  using assms reduce_loops_inv [of t 0 s ar]
  by (simp add: tensor_inv_def reduce_ndim_def)

lemma dim_loops_all:
  assumes "tensor_inv t"
  shows "dim_loops t 0 s ar = (Inr (loop_nest ar (args t) (dims t) s), ar + ndim t)"
  using assms dim_loops_inv [of t 0 s ar]
  by (simp add: tensor_inv_def ndim_def dims_def buf_ndim_def)

section \<open>Example tensors, field by field\<close>

lemma example_add_fields:
  "args example_add = [index_var 0 ''i'', index_var 1 ''j'']"
  "dims example_add = [IntImm 4, IntImm 4]"
  "ndim example_add = 2" "reduce_ndim example_add = 0"
  "reduce_args example_add = []" "reduce_dims example_add = []"
  "body example_add \<noteq> None"
  by (simp_all add: example_add_def dims_def ndim_def buf_ndim_def reduce_ndim_def)

lemma example_sum_fields:
  "args (example_sum init) = [index_var 0 ''n'']"
  "dims (example_sum init) = [IntImm 4]"
  "ndim (example_sum init) = 1" "reduce_ndim (example_sum init) = 1"
  "reduce_args (example_sum init) = [index_var 1 ''k'']"
  "reduce_dims (example_sum init) = [IntImm 4]"
  "body (example_sum init) \<noteq> None"
  "buf_initializer (buf (example_sum init)) = init"
  by (simp_all add: example_sum_def dims_def ndim_def buf_ndim_def reduce_ndim_def)

lemma example_expanded_fields:
  "args example_expanded = [index_var 0 ''i'', index_var 1 ''j'']"
  "buf example_expanded = example_input"
  "ndim example_expanded = 2" "reduce_ndim example_expanded = 0"
  "reduce_args example_expanded = []"
  "body example_expanded = None"
  by (simp_all add: example_expanded_def example_input_def ndim_def buf_ndim_def
      reduce_ndim_def)

lemma example_scalar_fields:
  "buf example_scalar = Buf ''one'' [] None"
  "ndim example_scalar = 0" "reduce_ndim example_scalar = 0"
  "body example_scalar = Some (IntImm 1)"
  by (simp_all add: example_scalar_def ndim_def buf_ndim_def reduce_ndim_def)

lemma example_unpack:
  "unpack_dim_args example_dim_args 0 =
     (([IntImm 4, IntImm 4], [index_var 0 ''i'', index_var 1 ''j'']), 2)"
  by (simp add: example_dim_args_def index_var_def)

lemma example_add_built:
  "new_Tensor ''add'' [IntImm 4, IntImm 4] [index_var 0 ''i'', index_var (Suc 0) ''j'']
     (Add (Load example_input [VarE (index_var 0 ''i''), VarE (index_var (Suc 0) ''j'')])
        (IntImm 2))
   = example_add"
  by (simp add: new_Tensor_def example_add_def)

lemma example_sum_lowered:
  "lowerToStmt (example_sum (Some ie)) ar =
     (Inr (For (ar + 4) (index_var 0 ''n'') (IntImm 0) (IntImm 4)
            (Block (ar + 3)
              [Store (ar + 2) (buf (example_sum (Some ie))) [VarE (index_var 0 ''n'')]
                 (Some ie) (IntImm 1),
               For (ar + 1) (index_var 1 ''k'') (IntImm 0) (IntImm 4)
                 (Store ar (buf (example_sum (Some ie))) [VarE (index_var 0 ''n'')]
                    (body (example_sum (Some ie))) (IntImm 1))])), ar + 5)"
proof -
  have "tensor_inv (example_sum (Some ie))"
    by (simp add: tensor_inv_def example_sum_fields)
  then show ?thesis
    using example_sum_fields(7) [of "Some ie"]
    by (auto simp add: lowerToStmt_def ElementStmt_inv reduce_part_def reduce_loops_all
        dim_loops_all example_sum_fields)
qed

section \<open>Lowering\<close>

text \<open>
  C1. A tensor with a body, at least one output axis and no reduction axis lowers to the
  element store inside one \<open>For\<close> per output axis, each from 0 to the extent of its
  axis. The first-declared axis is the outermost loop and the last-declared the innermost;
  the innermost loop was built first (it has the lowest address after the store).
  For dims \<open>[I, J]\<close> this is \<open>For(i, 0, I, For(j, 0, J, Store(buf, [i, j], body)))\<close>.
\<close>

theorem lowerToStmt_loop_order:
  assumes "tensor_inv t" and "body t = Some b" and "0 < ndim t" and "reduce_ndim t = 0"
  shows "lowerToStmt t ar =
    (Inr (loop_nest (Suc ar) (args t) (dims t)
            (Store ar (buf t) (map VarE (args t)) (Some b) (IntImm 1))),
     Suc ar + ndim t)"
  using assms
  by (simp add: lowerToStmt_def ElementStmt_inv reduce_part_def dim_loops_all)

theorem lowerToStmt_loop_order_witness:
  "tensor_inv example_add \<and> body example_add \<noteq> None \<and> 0 < ndim example_add \<and>
   reduce_ndim example_add = 0 \<and>
   lowerToStmt example_add 2 =
     (Inr (For 4 (index_var 0 ''i'') (IntImm 0) (IntImm 4)
            (For 3 (index_var 1 ''j'') (IntImm 0) (IntImm 4)
              (Store 2 (buf example_add)
                 [VarE (index_var 0 ''i''), VarE (index_var 1 ''j'')]
                 (body example_add) (IntImm 1)))), 5)"
proof -
  have h: "tensor_inv example_add" "0 < ndim example_add" "reduce_ndim example_add = 0"
    by (simp_all add: tensor_inv_def example_add_fields)
  obtain b where b: "body example_add = Some b"
    using example_add_fields(7) by blast
  from lowerToStmt_loop_order [OF h(1) b h(2) h(3), of 2] h b show ?thesis
    by (simp add: example_add_fields)
qed

text \<open>
  C2. A tensor with a body, at least one reduction axis and a buffer that declares an
  initializer lowers to the output loop nest around a \<open>Block\<close> of two statements: first
  the store of the initializer at the tensor's index variables, then the reduction loop
  nest (first-declared reduction axis outermost, each from 0 to its extent) around the
  element store. The initializer store is a sibling before the reduction loops and
  outside them.
\<close>

theorem lowerToStmt_reduce_init:
  assumes "tensor_inv t" and "body t = Some b" and "0 < reduce_ndim t"
    and "buf_initializer (buf t) = Some ie"
  shows "lowerToStmt t ar =
    (Inr (loop_nest (ar + reduce_ndim t + 3) (args t) (dims t)
            (Block (ar + reduce_ndim t + 2)
               [Store (ar + reduce_ndim t + 1) (buf t) (map VarE (args t)) (Some ie)
                  (IntImm 1),
                loop_nest (Suc ar) (reduce_args t) (reduce_dims t)
                  (Store ar (buf t) (map VarE (args t)) (Some b) (IntImm 1))])),
     ar + reduce_ndim t + 3 + ndim t)"
  using assms
  by (simp add: lowerToStmt_def ElementStmt_inv reduce_part_def reduce_loops_all
      dim_loops_all numeral_3_eq_3)

theorem lowerToStmt_reduce_init_witness:
  "tensor_inv (example_sum (Some (IntImm 0))) \<and>
   body (example_sum (Some (IntImm 0))) \<noteq> None \<and>
   0 < reduce_ndim (example_sum (Some (IntImm 0))) \<and>
   buf_initializer (buf (example_sum (Some (IntImm 0)))) = Some (IntImm 0) \<and>
   lowerToStmt (example_sum (Some (IntImm 0))) 2 =
     (Inr (For 6 (index_var 0 ''n'') (IntImm 0) (IntImm 4)
            (Block 5
              [Store 4 (buf (example_sum (Some (IntImm 0)))) [VarE (index_var 0 ''n'')]
                 (Some (IntImm 0)) (IntImm 1),
               For 3 (index_var 1 ''k'') (IntImm 0) (IntImm 4)
                 (Store 2 (buf (example_sum (Some (IntImm 0)))) [VarE (index_var 0 ''n'')]
                    (body (example_sum (Some (IntImm 0)))) (IntImm 1))])), 7)"
proof -
  let ?t = "example_sum (Some (IntImm 0))"
  have h: "tensor_inv ?t" "0 < reduce_ndim ?t" "buf_initializer (buf ?t) = Some (IntImm 0)"
    by (simp_all add: tensor_inv_def example_sum_fields)
  obtain b where b: "body ?t = Some b"
    using example_sum_fields(7) by blast
  from lowerToStmt_reduce_init [OF h(1) b h(2) h(3), of 2] h b show ?thesis
    by (simp add: example_sum_fields)
qed

text \<open>
  C10. A tensor with a body and at least one reduction axis whose buffer declares no
  initializer lowers without initializer store and without \<open>Block\<close>: the reduction loops
  wrap the element store directly and the output loops wrap the reduction loops directly.
\<close>

theorem lowerToStmt_reduce_no_init:
  assumes "tensor_inv t" and "body t = Some b" and "0 < reduce_ndim t"
    and "buf_initializer (buf t) = None"
  shows "lowerToStmt t ar =
    (Inr (loop_nest (ar + reduce_ndim t + 1) (args t) (dims t)
            (loop_nest (Suc ar) (reduce_args t) (reduce_dims t)
               (Store ar (buf t) (map VarE (args t)) (Some b) (IntImm 1)))),
     ar + reduce_ndim t + 1 + ndim t)"
  using assms
  by (simp add: lowerToStmt_def ElementStmt_inv reduce_part_def reduce_loops_all
      dim_loops_all)

theorem lowerToStmt_reduce_no_init_witness:
  "tensor_inv (example_sum None) \<and> body (example_sum None) \<noteq> None \<and>
   0 < reduce_ndim (example_sum None) \<and>
   buf_initializer (buf (example_sum None)) = None \<and>
   lowerToStmt (example_sum None) 2 =
     (Inr (For 4 (index_var 0 ''n'') (IntImm 0) (IntImm 4)
            (For 3 (index_var 1 ''k'') (IntImm 0) (IntImm 4)
              (Store 2 (buf (example_sum None)) [VarE (index_var 0 ''n'')]
                 (body (example_sum None)) (IntImm 1)))), 5)"
proof -
  let ?t = "example_sum None"
  have h: "tensor_inv ?t" "0 < reduce_ndim ?t" "buf_initializer (buf ?t) = None"
    by (simp_all add: tensor_inv_def example_sum_fields)
  obtain b where b: "body ?t = Some b"
    using example_sum_fields(7) by blast
  from lowerToStmt_reduce_no_init [OF h(1) b h(2) h(3), of 2] h b show ?thesis
    by (simp add: example_sum_fields)
qed

text \<open>
  C4. A tensor without a body lowers to exactly what \<open>ElementStmt\<close> returns, whatever dims
  and reduction dims it declares: no loop and no block is added. For a tensor that keeps
  the invariant this is the single \<open>Store\<close> of the null body at the index variables.
\<close>

theorem lowerToStmt_expanded:
  assumes "body t = None"
  shows "lowerToStmt t ar = ElementStmt t ar \<and>
    (tensor_inv t \<longrightarrow>
       lowerToStmt t ar =
         (Inr (Store ar (buf t) (map VarE (args t)) None (IntImm 1)), Suc ar))"
proof -
  have "lowerToStmt t ar = ElementStmt t ar"
    using assms by (simp add: lowerToStmt_def split: prod.splits sum.splits)
  then show ?thesis using assms by (simp add: ElementStmt_inv)
qed

theorem lowerToStmt_expanded_witness:
  "body example_expanded = None \<and> tensor_inv example_expanded \<and>
   lowerToStmt example_expanded 7 = ElementStmt example_expanded 7 \<and>
   lowerToStmt example_expanded 7 =
     (Inr (Store 7 example_input [VarE (index_var 0 ''i''), VarE (index_var 1 ''j'')]
             None (IntImm 1)), 8)"
proof -
  have h: "body example_expanded = None" "tensor_inv example_expanded"
    by (simp_all add: tensor_inv_def example_expanded_fields)
  from lowerToStmt_expanded [OF h(1), of 7] h show ?thesis
    by (auto simp add: example_expanded_fields)
qed

text \<open>
  C5. A tensor with a body, no output axis and no reduction axis lowers to a bare
  \<open>Store\<close> with an empty index list and no loop around it.
\<close>

theorem lowerToStmt_scalar:
  assumes "body t = Some b" and "ndim t = 0" and "reduce_ndim t = 0"
  shows "lowerToStmt t ar = (Inr (Store ar (buf t) [] (Some b) (IntImm 1)), Suc ar)"
proof -
  have "element_indices t 0 [] = Inr []"
    using assms(2) by (subst element_indices.simps) (simp add: ndim_def)
  then show ?thesis
    using assms by (simp add: lowerToStmt_def ElementStmt_def)
qed

theorem lowerToStmt_scalar_witness:
  "body example_scalar = Some (IntImm 1) \<and> ndim example_scalar = 0 \<and>
   reduce_ndim example_scalar = 0 \<and>
   lowerToStmt example_scalar 0 =
     (Inr (Store 0 (Buf ''one'' [] None) [] (Some (IntImm 1)) (IntImm 1)), 1)"
proof -
  have h: "body example_scalar = Some (IntImm 1)" "ndim example_scalar = 0"
    "reduce_ndim example_scalar = 0"
    by (simp_all add: example_scalar_fields)
  from lowerToStmt_scalar [OF h, of 0] h show ?thesis
    by (simp add: example_scalar_fields)
qed

section \<open>Lowering twice\<close>

text \<open>
  The shape of what a lowering returns does not depend on the arena it starts from, and
  the nodes it builds lie between the arena before and the arena after.
\<close>

lemma reduce_loops_shape:
  "strip s = strip s' \<Longrightarrow>
   shape (fst (reduce_loops t i s ar)) = shape (fst (reduce_loops t i s' ar'))"
proof (induction t i s ar arbitrary: s' ar' rule: reduce_loops.induct)
  case (1 t i s ar)
  show ?case
  proof (cases "i < reduce_ndim t")
    case True
    show ?thesis
    proof (cases "reduce_arg t (reduce_ndim t - i - 1)")
      case (Inl e)
      with True show ?thesis
        by (subst (1 2) reduce_loops.simps) (simp add: Let_def)
    next
      case v: (Inr v)
      show ?thesis
      proof (cases "reduce_dim t (reduce_ndim t - i - 1)")
        case (Inl e)
        with True v show ?thesis
          by (subst (1 2) reduce_loops.simps) (simp add: Let_def)
      next
        case d: (Inr d)
        have "strip (For ar v (IntImm 0) d s) = strip (For ar' v (IntImm 0) d s')"
          using "1.prems" by simp
        from "1.IH" [OF True refl v d this, of "Suc ar'"] True v d show ?thesis
          by (subst (1 2) reduce_loops.simps) (simp add: Let_def)
      qed
    qed
  next
    case False
    with "1.prems" show ?thesis
      by (subst (1 2) reduce_loops.simps) simp
  qed
qed

lemma reduce_loops_nodes:
  "reduce_loops t i s ar = (Inr s', ar') \<Longrightarrow> set (nodes s) \<subseteq> {lo..<ar} \<Longrightarrow> lo \<le> ar \<Longrightarrow>
   set (nodes s') \<subseteq> {lo..<ar'} \<and> ar \<le> ar'"
proof (induction t i s ar rule: reduce_loops.induct)
  case (1 t i s ar)
  show ?case
  proof (cases "i < reduce_ndim t")
    case True
    from "1.prems"(1) True obtain v d where
      v: "reduce_arg t (reduce_ndim t - i - 1) = Inr v" and
      d: "reduce_dim t (reduce_ndim t - i - 1) = Inr d" and
      r: "reduce_loops t (Suc i) (For ar v (IntImm 0) d s) (Suc ar) = (Inr s', ar')"
      by (subst (asm) reduce_loops.simps) (auto simp: Let_def split: sum.splits)
    have "set (nodes (For ar v (IntImm 0) d s)) \<subseteq> {lo..<Suc ar}"
      using "1.prems"(2,3) by auto
    from "1.IH" [OF True refl v d r this] "1.prems"(3) show ?thesis by simp
  next
    case False
    with "1.prems" show ?thesis
      by (subst (asm) reduce_loops.simps) auto
  qed
qed

lemma dim_loops_shape:
  "strip s = strip s' \<Longrightarrow>
   shape (fst (dim_loops t i s ar)) = shape (fst (dim_loops t i s' ar'))"
proof (induction t i s ar arbitrary: s' ar' rule: dim_loops.induct)
  case (1 t i s ar)
  show ?case
  proof (cases "i < ndim t")
    case True
    show ?thesis
    proof (cases "arg t (ndim t - i - 1)")
      case (Inl e)
      with True show ?thesis
        by (subst (1 2) dim_loops.simps) (simp add: Let_def)
    next
      case v: (Inr v)
      show ?thesis
      proof (cases "dim t (ndim t - i - 1)")
        case (Inl e)
        with True v show ?thesis
          by (subst (1 2) dim_loops.simps) (simp add: Let_def)
      next
        case d: (Inr d)
        have "strip (For ar v (IntImm 0) d s) = strip (For ar' v (IntImm 0) d s')"
          using "1.prems" by simp
        from "1.IH" [OF True refl v d this, of "Suc ar'"] True v d show ?thesis
          by (subst (1 2) dim_loops.simps) (simp add: Let_def)
      qed
    qed
  next
    case False
    with "1.prems" show ?thesis
      by (subst (1 2) dim_loops.simps) simp
  qed
qed

lemma dim_loops_nodes:
  "dim_loops t i s ar = (Inr s', ar') \<Longrightarrow> set (nodes s) \<subseteq> {lo..<ar} \<Longrightarrow> lo \<le> ar \<Longrightarrow>
   set (nodes s') \<subseteq> {lo..<ar'} \<and> ar \<le> ar'"
proof (induction t i s ar rule: dim_loops.induct)
  case (1 t i s ar)
  show ?case
  proof (cases "i < ndim t")
    case True
    from "1.prems"(1) True obtain v d where
      v: "arg t (ndim t - i - 1) = Inr v" and
      d: "dim t (ndim t - i - 1) = Inr d" and
      r: "dim_loops t (Suc i) (For ar v (IntImm 0) d s) (Suc ar) = (Inr s', ar')"
      by (subst (asm) dim_loops.simps) (auto simp: Let_def split: sum.splits)
    have "set (nodes (For ar v (IntImm 0) d s)) \<subseteq> {lo..<Suc ar}"
      using "1.prems"(2,3) by auto
    from "1.IH" [OF True refl v d r this] "1.prems"(3) show ?thesis by simp
  next
    case False
    with "1.prems" show ?thesis
      by (subst (asm) dim_loops.simps) auto
  qed
qed

lemma shape_Inl: "shape r = Inl e \<longleftrightarrow> r = Inl e"
  by (cases r) simp_all

lemma shape_Inr: "shape r = Inr u \<longleftrightarrow> (\<exists>s. r = Inr s \<and> strip s = u)"
  by (cases r) auto

lemma ElementStmt_shape:
  "shape (fst (ElementStmt t ar)) = shape (fst (ElementStmt t ar'))"
  by (simp add: ElementStmt_def split: sum.splits)

lemma ElementStmt_nodes:
  "ElementStmt t ar = (Inr s, ar') \<Longrightarrow> set (nodes s) \<subseteq> {ar..<ar'} \<and> ar \<le> ar'"
  by (auto simp: ElementStmt_def split: sum.splits)

lemma reduce_part_shape:
  assumes "strip s = strip s'"
  shows "shape (fst (reduce_part t s ar)) = shape (fst (reduce_part t s' ar'))"
proof (cases "0 < reduce_ndim t")
  case True
  obtain r a where r: "reduce_loops t 0 s ar = (r, a)" by (metis prod.exhaust)
  obtain r' a' where r': "reduce_loops t 0 s' ar' = (r', a')" by (metis prod.exhaust)
  from reduce_loops_shape [OF assms, of t 0 ar ar'] r r' have sh: "shape r = shape r'"
    by simp
  show ?thesis
  proof (cases r)
    case (Inl e)
    with sh have "shape r' = Inl e" by simp
    then have "r' = Inl e" by (simp only: shape_Inl)
    with Inl True r r' show ?thesis by (simp add: reduce_part_def)
  next
    case (Inr u)
    with sh obtain u' where "r' = Inr u'" "strip u' = strip u"
      by (metis shape.simps(2) shape_Inr)
    with Inr True r r' show ?thesis
      by (simp add: reduce_part_def Let_def split: option.splits)
  qed
next
  case False
  with assms show ?thesis by (simp add: reduce_part_def)
qed

lemma reduce_part_nodes:
  assumes "reduce_part t s ar = (Inr s', ar')" and "set (nodes s) \<subseteq> {lo..<ar}" and "lo \<le> ar"
  shows "set (nodes s') \<subseteq> {lo..<ar'} \<and> ar \<le> ar'"
proof (cases "0 < reduce_ndim t")
  case True
  obtain r a where r: "reduce_loops t 0 s ar = (r, a)" by (metis prod.exhaust)
  with assms(1) True obtain u where u: "r = Inr u"
    by (cases r) (simp_all add: reduce_part_def)
  from reduce_loops_nodes [OF r [unfolded u] assms(2,3)]
  have n: "set (nodes u) \<subseteq> {lo..<a}" "ar \<le> a" by simp_all
  show ?thesis
  proof (cases "buf_initializer (buf t)")
    case None
    with assms(1) True r u n show ?thesis by (simp add: reduce_part_def)
  next
    case (Some ie)
    with assms(1) True r u have
      "s' = Block (Suc a) [Store a (buf t) (map VarE (args t)) (Some ie) (IntImm 1), u]"
      "ar' = Suc (Suc a)"
      by (simp_all add: reduce_part_def Let_def)
    with n assms(3) show ?thesis by auto
  qed
next
  case False
  with assms show ?thesis by (simp add: reduce_part_def)
qed

lemma lowerToStmt_shape:
  "shape (fst (lowerToStmt t ar)) = shape (fst (lowerToStmt t ar'))"
proof -
  obtain r a where r: "ElementStmt t ar = (r, a)" by (metis prod.exhaust)
  obtain r' a' where r': "ElementStmt t ar' = (r', a')" by (metis prod.exhaust)
  from ElementStmt_shape [of t ar ar'] r r' have sh: "shape r = shape r'" by simp
  show ?thesis
  proof (cases r)
    case (Inl e)
    with sh have "shape r' = Inl e" by simp
    then have "r' = Inl e" by (simp only: shape_Inl)
    with Inl r r' show ?thesis by (simp add: lowerToStmt_def)
  next
    case (Inr s)
    with sh obtain s' where s': "r' = Inr s'" "strip s' = strip s"
      by (metis shape.simps(2) shape_Inr)
    show ?thesis
    proof (cases "body t = None \<or> (ndim t = 0 \<and> reduce_ndim t = 0)")
      case True
      with Inr s' r r' show ?thesis by (auto simp: lowerToStmt_def)
    next
      case False
      obtain q b where q: "reduce_part t s a = (q, b)" by (metis prod.exhaust)
      obtain q' b' where q': "reduce_part t s' a' = (q', b')" by (metis prod.exhaust)
      from reduce_part_shape [OF s'(2) [symmetric], of t a a'] q q'
      have shq: "shape q = shape q'" by simp
      show ?thesis
      proof (cases q)
        case (Inl e)
        with shq have "shape q' = Inl e" by simp
    then have "q' = Inl e" by (simp only: shape_Inl)
        with Inl False Inr s' r r' q q' show ?thesis by (auto simp: lowerToStmt_def)
      next
        case u: (Inr u)
        with shq obtain u' where u': "q' = Inr u'" "strip u' = strip u"
          by (metis shape.simps(2) shape_Inr)
        from dim_loops_shape [OF u'(2) [symmetric], of t 0 b b']
        have "shape (fst (dim_loops t 0 u b)) = shape (fst (dim_loops t 0 u' b'))" .
        with u u' False Inr s' r r' q q' show ?thesis by (auto simp: lowerToStmt_def)
      qed
    qed
  qed
qed

lemma lowerToStmt_nodes:
  assumes "lowerToStmt t ar = (Inr s, ar')"
  shows "set (nodes s) \<subseteq> {ar..<ar'}"
proof -
  obtain r a where r: "ElementStmt t ar = (r, a)" by (metis prod.exhaust)
  with assms obtain e where e: "r = Inr e"
    by (cases r) (simp_all add: lowerToStmt_def)
  from ElementStmt_nodes [OF r [unfolded e]] have ne: "set (nodes e) \<subseteq> {ar..<a}" "ar \<le> a"
    by simp_all
  show ?thesis
  proof (cases "body t = None \<or> (ndim t = 0 \<and> reduce_ndim t = 0)")
    case True
    with assms r e have "s = e" "ar' = a"
      by (auto simp: lowerToStmt_def split: if_splits)
    with ne show ?thesis by simp
  next
    case False
    obtain q b where q: "reduce_part t e a = (q, b)" by (metis prod.exhaust)
    with assms False r e obtain u where u: "q = Inr u"
      by (cases q) (auto simp: lowerToStmt_def)
    from reduce_part_nodes [OF q [unfolded u] ne] have nu: "set (nodes u) \<subseteq> {ar..<b}" "a \<le> b"
      by simp_all
    from assms False r e q u have "dim_loops t 0 u b = (Inr s, ar')"
      by (auto simp: lowerToStmt_def)
    from dim_loops_nodes [OF this nu(1)] ne(2) nu(2) show ?thesis by simp
  qed
qed

lemma lowerToStmt_returns:
  assumes "tensor_inv t"
  shows "\<exists>s ar'. lowerToStmt t ar = (Inr s, ar')"
  using assms
  by (simp add: lowerToStmt_def ElementStmt_inv reduce_part_def reduce_loops_all
      dim_loops_all Let_def split: option.splits)

text \<open>
  C7. Lowering the same tensor twice, the second time from the arena the first left
  or from any later one, gives the same outcome both times: either the same error, or
  two statement trees that agree once node addresses are forgotten (same loop nesting, same
  store targets, same stored expressions) and that share no node. For a tensor that keeps
  the invariant both lowerings return a tree.
\<close>

theorem lowerToStmt_relowering:
  assumes "lowerToStmt t ar = (r1, ar1)" and "ar1 \<le> ar'"
    and "lowerToStmt t ar' = (r2, ar2)"
  shows "relowered r1 r2 \<and> (tensor_inv t \<longrightarrow> (\<exists>s1 s2. r1 = Inr s1 \<and> r2 = Inr s2))"
proof -
  from lowerToStmt_shape [of t ar ar'] assms(1,3) have sh: "shape r1 = shape r2" by simp
  have "relowered r1 r2"
  proof (cases r1)
    case (Inl e)
    with sh have "shape r2 = Inl e" by simp
    then have "r2 = Inl e" by (simp only: shape_Inl)
    with Inl show ?thesis by simp
  next
    case (Inr s1)
    with sh obtain s2 where s2: "r2 = Inr s2" "strip s2 = strip s1"
      by (metis shape.simps(2) shape_Inr)
    from lowerToStmt_nodes [OF assms(1) [unfolded Inr]]
      lowerToStmt_nodes [OF assms(3) [unfolded s2(1)]] assms(2)
    have "set (nodes s1) \<inter> set (nodes s2) = {}" by fastforce
    with Inr s2 show ?thesis by simp
  qed
  moreover have "tensor_inv t \<longrightarrow> (\<exists>s1 s2. r1 = Inr s1 \<and> r2 = Inr s2)"
    using lowerToStmt_returns [of t ar] lowerToStmt_returns [of t ar'] assms(1,3) by auto
  ultimately show ?thesis by simp
qed

theorem lowerToStmt_relowering_witness:
  "lowerToStmt (example_sum (Some (IntImm 0))) 2 =
     (Inr (For 6 (index_var 0 ''n'') (IntImm 0) (IntImm 4)
            (Block 5
              [Store 4 (buf (example_sum (Some (IntImm 0)))) [VarE (index_var 0 ''n'')]
                 (Some (IntImm 0)) (IntImm 1),
               For 3 (index_var 1 ''k'') (IntImm 0) (IntImm 4)
                 (Store 2 (buf (example_sum (Some (IntImm 0)))) [VarE (index_var 0 ''n'')]
                    (body (example_sum (Some (IntImm 0)))) (IntImm 1))])), 7) \<and>
   lowerToStmt (example_sum (Some (IntImm 0))) 7 =
     (Inr (For 11 (index_var 0 ''n'') (IntImm 0) (IntImm 4)
            (Block 10
              [Store 9 (buf (example_sum (Some (IntImm 0)))) [VarE (index_var 0 ''n'')]
                 (Some (IntImm 0)) (IntImm 1),
               For 8 (index_var 1 ''k'') (IntImm 0) (IntImm 4)
                 (Store 7 (buf (example_sum (Some (IntImm 0)))) [VarE (index_var 0 ''n'')]
                    (body (example_sum (Some (IntImm 0)))) (IntImm 1))])), 12) \<and>
   relowered (fst (lowerToStmt (example_sum (Some (IntImm 0))) 2))
     (fst (lowerToStmt (example_sum (Some (IntImm 0))) 7))"
proof -
  let ?t = "example_sum (Some (IntImm 0))"
  obtain r1 r2 where r: "lowerToStmt ?t 2 = (r1, 7)" "lowerToStmt ?t 7 = (r2, 12)"
    by (simp add: example_sum_lowered)
  from lowerToStmt_relowering [OF r(1) order_refl r(2)] have "relowered r1 r2" by simp
  with r show ?thesis
    using example_sum_lowered [of "IntImm 0" 2] example_sum_lowered [of "IntImm 0" 7]
    by simp
qed

section \<open>The builders\<close>

lemma unpack_dim_args_eq:
  "unpack_dim_args dim_args ar = ((ds, vs), ar') \<Longrightarrow>
   ds = map dimarg_dim dim_args \<and> map var_addr vs = [ar..<ar + length dim_args] \<and>
   map var_name vs = map dimarg_name dim_args \<and> ar' = ar + length dim_args"
proof (induction dim_args arbitrary: ar ds vs ar')
  case Nil
  then show ?case by simp
next
  case (Cons d rest)
  obtain ds0 vs0 ar0 where r: "unpack_dim_args rest (Suc ar) = ((ds0, vs0), ar0)"
    by (metis prod.exhaust)
  from Cons.IH [OF r] r Cons.prems show ?case
    by (auto simp: upt_conv_Cons)
qed

lemma unpack_dim_args_length:
  assumes "unpack_dim_args dim_args ar = ((ds, vs), ar')"
  shows "length ds = length dim_args" and "length vs = length dim_args"
proof -
  from unpack_dim_args_eq [OF assms] have
    "ds = map dimarg_dim dim_args" "map var_addr vs = [ar..<ar + length dim_args]"
    by simp_all
  then show "length ds = length dim_args" by simp
  from \<open>map var_addr vs = [ar..<ar + length dim_args]\<close>
  have "length (map var_addr vs) = length [ar..<ar + length dim_args]" by simp
  then show "length vs = length dim_args" by simp
qed

lemma new_Tensor_fields:
  "ndim (new_Tensor n ds vs b) = length ds" "dims (new_Tensor n ds vs b) = ds"
  "args (new_Tensor n ds vs b) = vs" "body (new_Tensor n ds vs b) = Some b"
  "reduce_ndim (new_Tensor n ds vs b) = 0" "reduce_args (new_Tensor n ds vs b) = []"
  "reduce_dims (new_Tensor n ds vs b) = []"
  by (simp_all add: new_Tensor_def ndim_def buf_ndim_def dims_def reduce_ndim_def)

lemma Compute1_ok:
  assumes "length dim_args = 1"
  shows "\<exists>t ar' w'. Compute1 func_name dim_args f ar w = (Inr t, ar', w') \<and>
     ndim t = 1 \<and> reduce_ndim t = 0 \<and> reduce_args t = [] \<and> reduce_dims t = []"
proof -
  obtain ds vs ar' where u: "unpack_dim_args dim_args ar = ((ds, vs), ar')"
    by (metis prod.exhaust)
  obtain b w' where f: "f (vs ! 0) w = (b, w')"
    by (metis prod.exhaust)
  have "Compute1 func_name dim_args f ar w = (Inr (new_Tensor func_name ds vs b), ar', w')"
    using assms f by (simp add: Compute1_def u)
  with unpack_dim_args_length [OF u] assms show ?thesis
    by (simp add: new_Tensor_fields)
qed

lemma Compute2_ok:
  assumes "length dim_args = 2"
  shows "\<exists>t ar' w'. Compute2 func_name dim_args f ar w = (Inr t, ar', w') \<and>
     ndim t = 2 \<and> reduce_ndim t = 0 \<and> reduce_args t = [] \<and> reduce_dims t = []"
proof -
  obtain ds vs ar' where u: "unpack_dim_args dim_args ar = ((ds, vs), ar')"
    by (metis prod.exhaust)
  obtain b w' where f: "f (vs ! 0) (vs ! 1) w = (b, w')"
    by (metis prod.exhaust)
  have "Compute2 func_name dim_args f ar w = (Inr (new_Tensor func_name ds vs b), ar', w')"
    using assms f by (simp add: Compute2_def u)
  with unpack_dim_args_length [OF u] assms show ?thesis
    by (simp add: new_Tensor_fields)
qed

lemma Compute3_ok:
  assumes "length dim_args = 3"
  shows "\<exists>t ar' w'. Compute3 func_name dim_args f ar w = (Inr t, ar', w') \<and>
     ndim t = 3 \<and> reduce_ndim t = 0 \<and> reduce_args t = [] \<and> reduce_dims t = []"
proof -
  obtain ds vs ar' where u: "unpack_dim_args dim_args ar = ((ds, vs), ar')"
    by (metis prod.exhaust)
  obtain b w' where f: "f (vs ! 0) (vs ! 1) (vs ! 2) w = (b, w')"
    by (metis prod.exhaust)
  have "Compute3 func_name dim_args f ar w = (Inr (new_Tensor func_name ds vs b), ar', w')"
    using assms f by (simp add: Compute3_def u)
  with unpack_dim_args_length [OF u] assms show ?thesis
    by (simp add: new_Tensor_fields)
qed

lemma Compute4_ok:
  assumes "length dim_args = 4"
  shows "\<exists>t ar' w'. Compute4 func_name dim_args f ar w = (Inr t, ar', w') \<and>
     ndim t = 4 \<and> reduce_ndim t = 0 \<and> reduce_args t = [] \<and> reduce_dims t = []"
proof -
  obtain ds vs ar' where u: "unpack_dim_args dim_args ar = ((ds, vs), ar')"
    by (metis prod.exhaust)
  obtain b w' where f: "f (vs ! 0) (vs ! 1) (vs ! 2) (vs ! 3) w = (b, w')"
    by (metis prod.exhaust)
  have "Compute4 func_name dim_args f ar w = (Inr (new_Tensor func_name ds vs b), ar', w')"
    using assms f by (simp add: Compute4_def u)
  with unpack_dim_args_length [OF u] assms show ?thesis
    by (simp add: new_Tensor_fields)
qed

lemma Compute_arity_mismatch:
  assumes "length dim_args \<noteq> arity f"
  shows "\<exists>msg. \<forall>ar w. Compute_arity func_name dim_args f ar w = (Inl (malformed_input msg), ar, w)"
  using assms
  by (cases f) (auto simp: Compute1_def Compute2_def Compute3_def Compute4_def)

text \<open>
  C3. For each arity 1 to 4, the Compute overload for a callable of that arity, given a
  dimension list of another length, returns a malformed-input error without calling the
  callable and without allocating: the arena and the caller's state are as before. Given
  a dimension list of exactly that length it returns a tensor whose \<open>ndim\<close> is the arity
  and whose reduction axes are empty.
\<close>

theorem Compute_arity_validation:
  "(length dim_args \<noteq> arity f \<longrightarrow>
      (\<exists>msg. Compute_arity func_name dim_args f ar w = (Inl (malformed_input msg), ar, w))) \<and>
   (length dim_args = arity f \<longrightarrow>
      (\<exists>t ar' w'. Compute_arity func_name dim_args f ar w = (Inr t, ar', w') \<and>
         ndim t = arity f \<and> reduce_ndim t = 0 \<and> reduce_args t = [] \<and> reduce_dims t = []))"
proof (intro conjI impI)
  assume "length dim_args \<noteq> arity f"
  from Compute_arity_mismatch [OF this]
  show "\<exists>msg. Compute_arity func_name dim_args f ar w = (Inl (malformed_input msg), ar, w)"
    by blast
next
  assume "length dim_args = arity f"
  then show "\<exists>t ar' w'. Compute_arity func_name dim_args f ar w = (Inr t, ar', w') \<and>
         ndim t = arity f \<and> reduce_ndim t = 0 \<and> reduce_args t = [] \<and> reduce_dims t = []"
    using Compute1_ok Compute2_ok Compute3_ok Compute4_ok
    by (cases f) simp_all
qed

theorem Compute_arity_validation_witness:
  "length example_dim_args \<noteq> arity (Body1 example_body1) \<and>
   Compute_arity ''add'' example_dim_args (Body1 example_body1) 0 0 =
     (Inl (malformed_input ''mismatch between body and arg size (1)''), 0, 0) \<and>
   length example_dim_args = arity (Body2 example_body2) \<and>
   Compute_arity ''add'' example_dim_args (Body2 example_body2) 0 0 =
     (Inr example_add, 2, 1) \<and>
   ndim example_add = arity (Body2 example_body2) \<and> reduce_ndim example_add = 0"
proof -
  have l: "length example_dim_args = 2" by (simp add: example_dim_args_def)
  have bad: "Compute_arity ''add'' example_dim_args (Body1 example_body1) 0 0 =
     (Inl (malformed_input ''mismatch between body and arg size (1)''), 0, 0)"
    by (simp add: Compute1_def l)
  have good: "Compute_arity ''add'' example_dim_args (Body2 example_body2) 0 0 =
     (Inr example_add, 2, 1)"
    by (simp add: Compute2_def l example_unpack example_body2_def example_body_def
        example_add_built)
  from Compute_arity_validation [of example_dim_args "Body1 example_body1" "''add''" 0 0]
    Compute_arity_validation [of example_dim_args "Body2 example_body2" "''add''" 0 0]
    l bad good
  show ?thesis by (simp add: example_add_fields)
qed

text \<open>
  C8. When the arity check of a builder fails, the call returns the error and no tensor,
  the arena and the caller's state are untouched (nothing was allocated, the callable was
  not called), and the same call fails with the same error from every state, so also when
  it is repeated.
\<close>

theorem Compute_arity_failure_aborts:
  assumes "length dim_args \<noteq> arity f"
  shows "\<exists>msg. Compute_arity func_name dim_args f ar w = (Inl (malformed_input msg), ar, w) \<and>
     (\<forall>ar' w'. Compute_arity func_name dim_args f ar' w' = (Inl (malformed_input msg), ar', w'))"
  using Compute_arity_mismatch [OF assms] by blast

theorem Compute_arity_failure_aborts_witness:
  "length example_dim_args \<noteq> arity (Body1 example_body1) \<and>
   Compute_arity ''add'' example_dim_args (Body1 example_body1) 0 0 =
     (Inl (malformed_input ''mismatch between body and arg size (1)''), 0, 0) \<and>
   (\<forall>ar' w'. Compute_arity ''add'' example_dim_args (Body1 example_body1) ar' w' =
     (Inl (malformed_input ''mismatch between body and arg size (1)''), ar', w'))"
proof -
  have l: "length example_dim_args \<noteq> arity (Body1 example_body1)"
    by (simp add: example_dim_args_def)
  from Compute_arity_failure_aborts [OF l, of "''add''" 0 0]
  obtain msg where m:
    "Compute_arity ''add'' example_dim_args (Body1 example_body1) 0 0 =
       (Inl (malformed_input msg), 0, 0)"
    "\<forall>ar' w'. Compute_arity ''add'' example_dim_args (Body1 example_body1) ar' w' =
       (Inl (malformed_input msg), ar', w')"
    by blast
  have "Compute_arity ''add'' example_dim_args (Body1 example_body1) 0 0 =
     (Inl (malformed_input ''mismatch between body and arg size (1)''), 0, 0)"
    using l by (simp add: Compute1_def)
  with m(1) have "msg = ''mismatch between body and arg size (1)''" by simp
  with m l show ?thesis by simp
qed

text \<open>
  C9. The Compute overload for a callable over a vector of index variables checks no
  arity: for every dimension list it returns a tensor, never an error. The callable is
  called once, on exactly one new variable per dimension (their addresses are the next
  free ones of the arena, in order); its result is the body, and the tensor's \<open>ndim\<close> is
  the length of the dimension list.
\<close>

theorem Compute_generic_no_arity_check:
  "\<exists>t. Compute func_name dim_args body_func ar w =
          (Inr t, ar + length dim_args, snd (body_func (args t) w)) \<and>
        body t = Some (fst (body_func (args t) w)) \<and>
        map var_addr (args t) = [ar ..< ar + length dim_args] \<and>
        length (args t) = length dim_args \<and>
        dims t = map dimarg_dim dim_args \<and>
        ndim t = length dim_args"
proof -
  obtain ds vs ar' where u: "unpack_dim_args dim_args ar = ((ds, vs), ar')"
    by (metis prod.exhaust)
  obtain b w' where f: "body_func vs w = (b, w')"
    by (metis prod.exhaust)
  note e = unpack_dim_args_eq [OF u] and l = unpack_dim_args_length [OF u]
  have "Compute func_name dim_args body_func ar w = (Inr (new_Tensor func_name ds vs b), ar', w')"
    by (simp add: Compute_def u f)
  with e l f show ?thesis
    by (simp add: new_Tensor_fields)
qed

theorem Compute_generic_no_arity_check_witness:
  "Compute ''add'' example_dim_args example_body 0 0 = (Inr example_add, 2, 1) \<and>
   Compute ''one'' [] example_body 5 0 =
     (Inr (new_Tensor ''one'' [] [] (Add (Load example_input []) (IntImm 2))), 5, 1)"
proof -
  from Compute_generic_no_arity_check [of "''add''" example_dim_args example_body 0 0]
  obtain t where "Compute ''add'' example_dim_args example_body 0 0 =
      (Inr t, 0 + length example_dim_args, snd (example_body (args t) 0))"
    by blast
  moreover have "Compute ''add'' example_dim_args example_body 0 0 = (Inr example_add, 2, 1)"
    by (simp add: Compute_def example_unpack example_body_def example_add_built)
  moreover have "Compute ''one'' [] example_body 5 0 =
     (Inr (new_Tensor ''one'' [] [] (Add (Load example_input []) (IntImm 2))), 5, 1)"
    by (simp add: Compute_def example_body_def)
  ultimately show ?thesis by simp
qed

text \<open>
  C6. The two Reduce overloads pass the same arguments to the same shared Reduce and
  differ only in the indexed read they hand over, \<open>buffer.load(p)\<close> or \<open>tensor->call(p)\<close>.
  So whatever the shared Reduce is, when the placeholder's load and the tensor's call give
  the same expression on every index list, the two overloads give the same result.
\<close>

theorem Reduce_overloads_agree:
  assumes "\<forall>p. load buffer p = call tensor p"
  shows "Reduce_Placeholder Reduce_shared load func_name dim_args reducer buffer reduce_dim_args =
         Reduce_Tensor Reduce_shared call func_name dim_args reducer tensor reduce_dim_args"
proof -
  have "(\<lambda>p. load buffer p) = (\<lambda>p. call tensor p)"
    using assms by (intro ext) simp
  then show ?thesis
    by (simp only: Reduce_Placeholder_def Reduce_Tensor_def)
qed

theorem Reduce_overloads_agree_witness:
  "(\<forall>p. example_load example_input p = example_call example_expanded p) \<and>
   Reduce_Placeholder Reduce example_load ''sum''
       [\<lparr>dimarg_dim = IntImm 4, dimarg_name = ''n''\<rparr>] example_reducer example_input
       [\<lparr>dimarg_dim = IntImm 4, dimarg_name = ''k''\<rparr>] 0 =
   Reduce_Tensor Reduce example_call ''sum''
       [\<lparr>dimarg_dim = IntImm 4, dimarg_name = ''n''\<rparr>] example_reducer example_expanded
       [\<lparr>dimarg_dim = IntImm 4, dimarg_name = ''k''\<rparr>] 0 \<and>
   Reduce_Tensor Reduce example_call ''sum''
       [\<lparr>dimarg_dim = IntImm 4, dimarg_name = ''n''\<rparr>] example_reducer example_expanded
       [\<lparr>dimarg_dim = IntImm 4, dimarg_name = ''k''\<rparr>] 0 =
     (Inr (example_sum (Some (IntImm 0))), 2)"
proof -
  have h: "\<forall>p. example_load example_input p = example_call example_expanded p"
    by (simp add: example_load_def example_call_def example_expanded_fields)
  have "Reduce_Tensor Reduce example_call ''sum''
       [\<lparr>dimarg_dim = IntImm 4, dimarg_name = ''n''\<rparr>] example_reducer example_expanded
       [\<lparr>dimarg_dim = IntImm 4, dimarg_name = ''k''\<rparr>] 0 =
     (Inr (example_sum (Some (IntImm 0))), 2)"
    by (simp add: Reduce_Tensor_def Reduce_def example_reducer_def example_call_def
        example_expanded_fields example_sum_def index_var_def Let_def)
  with h Reduce_overloads_agree [where load = example_load and buffer = example_input
      and call = example_call and tensor = example_expanded and Reduce_shared = Reduce
      and func_name = "''sum''" and reducer = example_reducer
      and dim_args = "[\<lparr>dimarg_dim = IntImm 4, dimarg_name = ''n''\<rparr>]"
      and reduce_dim_args = "[\<lparr>dimarg_dim = IntImm 4, dimarg_name = ''k''\<rparr>]"]
  show ?thesis by (simp add: fun_eq_iff)
qed

end
